theory Spec2Isabelle
  imports Complex_Main "HOL-Library.Sublist"
begin

section \<open>Data model of \<open>src/main.js\<close>\<close>

text \<open>
  The page converts user-selected image files to JPEG in the browser. The model keeps the
  parts of the page that the script reads and writes: the set \<open>objectUrls\<close>, the
  browser's blob URL store, the \<open>#output\<close> element, the status line, the console, the
  shared \<open>#canvas\<close> and the queue of pending \<open>setTimeout\<close> callbacks. Pixels are not
  modelled. The external collaborators (\<open>isHeic\<close>, \<open>heicTo\<close>, the image loader and the
  canvas encoder) are a parameter of every function that calls them; each of them may fail.
\<close>

type_synonym url = nat
type_synonym blob = nat
type_synonym image = "nat \<times> nat"

text \<open>A \<open>File\<close>: its \<open>name\<close>, its declared media \<open>type\<close> and (an identifier of) its bytes.\<close>

record source_file =
  name :: string
  type :: string
  bytes :: blob

text \<open>
  A thrown value: an \<open>Error\<close> object (its \<open>name\<close> and \<open>message\<close>) or any other value,
  kept as the string that a template literal renders it to.
\<close>

datatype js_error = Error string string | Thrown string

text \<open>
  The external collaborators. \<open>decodeImage\<close> is the \<open>Image\<close> element's loader
  (\<open>None\<close> is \<open>onerror\<close>, \<open>Some (naturalWidth, naturalHeight)\<close> is \<open>onload\<close>);
  \<open>toBlob\<close> is the argument of the \<open>canvas.toBlob\<close> callback (\<open>None\<close> is \<open>null\<close>);
  \<open>drawImage\<close> takes the size of what is drawn and the size of the target canvas and
  returns the exception it throws, if any; \<open>fl\<close> is the rounding of the engine's
  arithmetic: the double that stands for the exact result of a division or a product.
\<close>

record platform =
  isHeic :: "source_file \<Rightarrow> js_error + bool"
  heicTo :: "source_file \<Rightarrow> js_error + blob"
  decodeImage :: "blob \<Rightarrow> image option"
  drawImage :: "nat \<times> nat \<Rightarrow> nat \<times> nat \<Rightarrow> js_error option"
  toBlob :: "nat \<times> nat \<Rightarrow> blob option"
  toDataURL :: "nat \<times> nat \<Rightarrow> js_error + string"
  fl :: "rat \<Rightarrow> rat"

text \<open>
  A result row (\<open>div.output-item\<close>): the \<open>src\<close> and \<open>alt\<close> of its thumbnail when it has
  one, the text of its label, and the \<open>href\<close> and \<open>download\<close> of its link. Then the
  children of \<open>#output\<close> (the field \<open>outputEl\<close>).
\<close>

record item =
  thumb :: "(string \<times> string) option"
  label :: string
  href :: url
  download :: string

datatype entry = Log string | Item item

text \<open>
  \<open>objectUrls\<close> is a JavaScript \<open>Set\<close>: a list without duplicates, in insertion order
  (the order \<open>forEach\<close> visits). \<open>url_store\<close> is the browser's blob URL store,
  \<open>next_url\<close> numbers the URLs that \<open>URL.createObjectURL\<close> hands out (each one is new),
  and \<open>revoked\<close> records every call of \<open>URL.revokeObjectURL\<close>, in order.
\<close>

record state =
  objectUrls :: "url list"
  url_store :: "(url \<times> blob) list"
  next_url :: nat
  revoked :: "url list"
  outputEl :: "entry list"
  status :: string
  console :: "string list"
  canvas :: "nat \<times> nat"
  timers :: "url list"

definition init :: state where
  "init = \<lparr>objectUrls = [], url_store = [], next_url = 0, revoked = [], outputEl = [],
     status = [], console = [], canvas = (300, 150), timers = []\<rparr>"

section \<open>Object URLs and the tracked set\<close>

definition createObjectURL :: "blob \<Rightarrow> state \<Rightarrow> url \<times> state" where
  "createObjectURL b s =
     (next_url s, s\<lparr>url_store := (next_url s, b) # url_store s, next_url := Suc (next_url s)\<rparr>)"

definition revokeObjectURL :: "url \<Rightarrow> state \<Rightarrow> state" where
  "revokeObjectURL u s =
     s\<lparr>url_store := filter (\<lambda>kv. fst kv \<noteq> u) (url_store s), revoked := revoked s @ [u]\<rparr>"

text \<open>\<open>objectUrls.add(url)\<close>, line 208.\<close>

definition register :: "url \<Rightarrow> state \<Rightarrow> state" where
  "register u s =
     s\<lparr>objectUrls := (if u \<in> set (objectUrls s) then objectUrls s else objectUrls s @ [u])\<rparr>"

text \<open>The body of the delayed callback, lines 239 and 240.\<close>

definition revoke :: "url \<Rightarrow> state \<Rightarrow> state" where
  "revoke u s = (let s1 = revokeObjectURL u s in s1\<lparr>objectUrls := removeAll u (objectUrls s1)\<rparr>)"

text \<open>Lines 110 and 111, and again 306 and 307.\<close>

definition revokeAll :: "state \<Rightarrow> state" where
  "revokeAll s = (let s1 = fold revokeObjectURL (objectUrls s) s in s1\<lparr>objectUrls := []\<rparr>)"

section \<open>Status and log lines\<close>

definition setStatus :: "string \<Rightarrow> state \<Rightarrow> state" where
  "setStatus msg s = s\<lparr>status := msg, console := console s @ [msg]\<rparr>"

definition appendMessage :: "string \<Rightarrow> state \<Rightarrow> state" where
  "appendMessage text s = s\<lparr>outputEl := outputEl s @ [Log text]\<rparr>"

text \<open>\<open>String(err)\<close>, and what \<open>${err.message || err}\<close> renders.\<close>

fun to_string :: "js_error \<Rightarrow> string" where
  "to_string (Error n m) = (if n = [] then m else if m = [] then n else n @ '': '' @ m)"
| "to_string (Thrown v) = v"

fun reason :: "js_error \<Rightarrow> string" where
  "reason (Error n m) = (if m \<noteq> [] then m else to_string (Error n m))"
| "reason (Thrown v) = v"

fun digit :: "nat \<Rightarrow> char" where
  "digit n = char_of (48 + n)"

function show_nat :: "nat \<Rightarrow> string" where
  "show_nat n = (if n < 10 then [digit n] else show_nat (n div 10) @ [digit (n mod 10)])"
  by pat_completeness auto
termination
  by (relation "measure id") auto

declare show_nat.simps [simp del]

section \<open>The input filter\<close>

text \<open>
  \<open>String.prototype.toLowerCase\<close> on the code units a \<open>char\<close> holds: the letters
  \<open>A\<close> to \<open>Z\<close> (65 to 90) move to \<open>a\<close> to \<open>z\<close>, every other one stays.
\<close>

definition lower_char :: "char \<Rightarrow> char" where
  "lower_char c =
     (let n = (of_char c :: nat) in if 65 \<le> n \<and> n \<le> 90 then char_of (n + 32) else c)"

definition toLowerCase :: "string \<Rightarrow> string" where
  "toLowerCase s = map lower_char s"

definition startsWith :: "string \<Rightarrow> string \<Rightarrow> bool" where
  "startsWith s p = (take (length p) s = p)"

definition endsWith :: "string \<Rightarrow> string \<Rightarrow> bool" where
  "endsWith s p = (length p \<le> length s \<and> drop (length s - length p) s = p)"

text \<open>The predicate of \<open>files.filter\<close>, lines 95 to 100.\<close>

definition supported :: "source_file \<Rightarrow> bool" where
  "supported file =
     (startsWith (type file) ''image/'' \<or>
      endsWith (toLowerCase (name file)) ''.heic'' \<or>
      endsWith (toLowerCase (name file)) ''.heif'')"

section \<open>Thumbnails\<close>

text \<open>
  The JavaScript numbers that the scale computation meets: a finite double (a rational),
  \<open>Infinity\<close> and \<open>NaN\<close>. A division and a product give the rounding \<open>fl\<close> of their
  exact result. Sizes and \<open>maxWidth\<close> are non-negative integers (pixel counts; every call
  in the script leaves \<open>maxWidth\<close> at its default, 240).
\<close>

datatype number = Fin rat | Infinity | NaN

text \<open>\<open>maxWidth / width\<close>: a division by zero gives \<open>Infinity\<close>, or \<open>NaN\<close> for 0 / 0.\<close>

definition divide_num :: "(rat \<Rightarrow> rat) \<Rightarrow> nat \<Rightarrow> nat \<Rightarrow> number" where
  "divide_num rnd m w =
     (if w = 0 then (if m = 0 then NaN else Infinity) else Fin (rnd (of_nat m / of_nat w)))"

text \<open>\<open>Math.min(x, 1)\<close>.\<close>

fun Math_min_1 :: "number \<Rightarrow> number" where
  "Math_min_1 (Fin q) = Fin (min q 1)"
| "Math_min_1 Infinity = Fin 1"
| "Math_min_1 NaN = NaN"

text \<open>\<open>width * scale\<close>.\<close>

fun times_num :: "(rat \<Rightarrow> rat) \<Rightarrow> nat \<Rightarrow> number \<Rightarrow> number" where
  "times_num rnd n (Fin q) = Fin (rnd (of_nat n * q))"
| "times_num rnd n Infinity = (if n = 0 then NaN else Infinity)"
| "times_num rnd n NaN = NaN"

text \<open>\<open>Math.round\<close>: the nearest integer, a half going up.\<close>

fun Math_round :: "number \<Rightarrow> number" where
  "Math_round (Fin q) = Fin (of_int \<lfloor>q + 1 / 2\<rfloor>)"
| "Math_round Infinity = Infinity"
| "Math_round NaN = NaN"

text \<open>
  Assigning a number to \<open>canvas.width\<close> or \<open>canvas.height\<close> (an \<open>unsigned long\<close>):
  \<open>NaN\<close> and \<open>Infinity\<close> become 0, a finite value is truncated and taken modulo \<open>2^32\<close>.
\<close>

fun to_unsigned_long :: "number \<Rightarrow> nat" where
  "to_unsigned_long (Fin q) =
     nat ((if q < 0 then - \<lfloor>- q\<rfloor> else \<lfloor>q\<rfloor>) mod 4294967296)"
| "to_unsigned_long Infinity = 0"
| "to_unsigned_long NaN = 0"

text \<open>Line 266 and line 287.\<close>

definition scale_of :: "(rat \<Rightarrow> rat) \<Rightarrow> nat \<Rightarrow> nat \<Rightarrow> number" where
  "scale_of rnd maxWidth width = Math_min_1 (divide_num rnd maxWidth width)"

text \<open>
  The size given to the thumbnail canvas: lines 266 to 272 (from the canvas) and lines 287
  to 293 (from the decoded image) are the same computation.
\<close>

definition thumb_size :: "(rat \<Rightarrow> rat) \<Rightarrow> nat \<times> nat \<Rightarrow> nat \<Rightarrow> nat \<times> nat" where
  "thumb_size rnd dims maxWidth =
     (let scale = scale_of rnd maxWidth (fst dims);
          thumbWidth = Math_round (times_num rnd (fst dims) scale);
          thumbHeight = Math_round (times_num rnd (snd dims) scale)
      in (to_unsigned_long thumbWidth, to_unsigned_long thumbHeight))"

text \<open>\<open>createThumbnailDataUrl(sourceCanvas, maxWidth)\<close>: \<open>null\<close>, a data URL, or an exception.\<close>

definition createThumbnailDataUrl ::
    "platform \<Rightarrow> nat \<times> nat \<Rightarrow> nat \<Rightarrow> js_error + string option" where
  "createThumbnailDataUrl env sourceCanvas maxWidth =
     (if fst sourceCanvas = 0 \<or> snd sourceCanvas = 0 then Inr None
      else let thumbCanvas = thumb_size (fl env) sourceCanvas maxWidth in
        case drawImage env sourceCanvas thumbCanvas of
          Some e \<Rightarrow> Inl e
        | None \<Rightarrow>
            (case toDataURL env thumbCanvas of Inl e \<Rightarrow> Inl e | Inr d \<Rightarrow> Inr (Some d)))"

text \<open>\<open>loadImage(url)\<close>: the promise resolves with the image or rejects.\<close>

definition loadImage :: "platform \<Rightarrow> url \<Rightarrow> state \<Rightarrow> js_error + image" where
  "loadImage env u s =
     (case map_of (url_store s) u of
        None \<Rightarrow> Inl (Error ''Error'' ''Failed to load image'')
      | Some b \<Rightarrow>
          (case decodeImage env b of
             None \<Rightarrow> Inl (Error ''Error'' ''Failed to load image'')
           | Some img \<Rightarrow> Inr img))"

text \<open>The \<open>try\<close> block of \<open>createThumbnailFromBlob\<close>, lines 285 to 298.\<close>

definition thumbnail_try :: "platform \<Rightarrow> url \<Rightarrow> nat \<Rightarrow> state \<Rightarrow> js_error + string" where
  "thumbnail_try env u maxWidth s =
     (case loadImage env u s of
        Inl e \<Rightarrow> Inl e
      | Inr img \<Rightarrow>
          (let tempCanvas = thumb_size (fl env) img maxWidth in
           case drawImage env img tempCanvas of
             Some e \<Rightarrow> Inl e
           | None \<Rightarrow> toDataURL env tempCanvas))"

text \<open>\<open>createThumbnailFromBlob(blob, maxWidth)\<close>: the \<open>finally\<close> block runs on both results.\<close>

definition createThumbnailFromBlob ::
    "platform \<Rightarrow> blob \<Rightarrow> nat \<Rightarrow> state \<Rightarrow> (js_error + string) \<times> state" where
  "createThumbnailFromBlob env b maxWidth s =
     (let (u, s1) = createObjectURL b s;
          r = thumbnail_try env u maxWidth s1
      in (r, revokeObjectURL u s1))"

section \<open>The two conversion paths\<close>

text \<open>
  The \<open>replace\<close> of line 210: when the name has a dot with at least one character after
  it and no later dot, the name is cut before that dot; otherwise it stays.
\<close>

definition baseName :: "string \<Rightarrow> string" where
  "baseName originalName =
     (let ext = takeWhile (\<lambda>c. c \<noteq> CHR ''.'') (rev originalName) in
      if ext \<noteq> [] \<and> length ext < length originalName
      then take (length originalName - length ext - 1) originalName
      else originalName)"

definition addDownloadLink :: "string \<Rightarrow> blob \<Rightarrow> string option \<Rightarrow> state \<Rightarrow> state" where
  "addDownloadLink originalName b thumbDataUrl s =
     (let (u, s1) = createObjectURL b s;
          s2 = register u s1;
          wrapper = \<lparr>thumb = (case thumbDataUrl of
                               None \<Rightarrow> None
                             | Some d \<Rightarrow> if d = [] then None else Some (d, baseName originalName)),
                     label = baseName originalName @ ''.jpg'',
                     href = u,
                     download = baseName originalName @ ''.jpg''\<rparr>
      in s2\<lparr>outputEl := outputEl s2 @ [Item wrapper]\<rparr>)"

definition canvasToJpegBlob :: "platform \<Rightarrow> nat \<times> nat \<Rightarrow> js_error + blob" where
  "canvasToJpegBlob env cv =
     (case toBlob env cv of
        None \<Rightarrow> Inl (Error ''Error'' ''Failed to create JPEG blob'')
      | Some b \<Rightarrow> Inr b)"

text \<open>The texts of the two progress lines, line 134 and line 151.\<close>

definition heic_line :: "source_file \<Rightarrow> string" where
  "heic_line file = ''(HEIC) Converting '' @ name file @ ''...''"

definition image_line :: "source_file \<Rightarrow> string" where
  "image_line file = ''(Standard image) Reading '' @ name file @ ''...''"

definition convertHeicFileToJpeg ::
    "platform \<Rightarrow> source_file \<Rightarrow> state \<Rightarrow> (js_error + unit) \<times> state" where
  "convertHeicFileToJpeg env file s =
     (let s1 = appendMessage (heic_line file) s in
      case heicTo env file of
        Inl e \<Rightarrow> (Inl e, s1)
      | Inr jpegBlob \<Rightarrow>
          (case createThumbnailFromBlob env jpegBlob 240 s1 of
             (Inl e, s2) \<Rightarrow> (Inl e, s2)
           | (Inr thumbDataUrl, s2) \<Rightarrow>
               (Inr (), addDownloadLink (name file) jpegBlob (Some thumbDataUrl) s2)))"

definition convertImageFileToJpeg ::
    "platform \<Rightarrow> source_file \<Rightarrow> state \<Rightarrow> (js_error + unit) \<times> state" where
  "convertImageFileToJpeg env file s =
     (let s1 = appendMessage (image_line file) s;
          (u, s2) = createObjectURL (bytes file) s1
      in case loadImage env u s2 of
           Inl e \<Rightarrow> (Inl e, s2)
         | Inr img \<Rightarrow>
             (let s3 = revokeObjectURL u s2;
                  s4 = s3\<lparr>canvas := img\<rparr>
              in case drawImage env img (canvas s4) of
                   Some e \<Rightarrow> (Inl e, s4)
                 | None \<Rightarrow>
                     (case createThumbnailDataUrl env (canvas s4) 240 of
                        Inl e \<Rightarrow> (Inl e, s4)
                      | Inr thumbDataUrl \<Rightarrow>
                          (case canvasToJpegBlob env (canvas s4) of
                             Inl e \<Rightarrow> (Inl e, s4)
                           | Inr jpegBlob \<Rightarrow>
                               (Inr (), addDownloadLink (name file) jpegBlob thumbDataUrl s4)))))"

section \<open>The router\<close>

definition safeIsHeic :: "platform \<Rightarrow> source_file \<Rightarrow> state \<Rightarrow> bool \<times> state" where
  "safeIsHeic env file s =
     (case isHeic env file of
        Inr h \<Rightarrow> (h, s)
      | Inl e \<Rightarrow>
          (False, s\<lparr>console := console s @ [''isHeic failed, treating as non-HEIC '' @ to_string e]\<rparr>))"

text \<open>The \<open>try\<close> block of the loop, lines 116 to 121.\<close>

definition route :: "platform \<Rightarrow> source_file \<Rightarrow> state \<Rightarrow> (js_error + unit) \<times> state" where
  "route env file s =
     (let (heic, s1) = safeIsHeic env file s in
      if heic then convertHeicFileToJpeg env file s1 else convertImageFileToJpeg env file s1)"

text \<open>The text of the log line of the \<open>catch\<close> block, line 124.\<close>

definition error_line :: "source_file \<Rightarrow> js_error \<Rightarrow> string" where
  "error_line file err = ''Error converting '' @ name file @ '': '' @ reason err"

text \<open>One turn of the loop: the \<open>try\<close> block and its \<open>catch\<close>, lines 115 to 125.\<close>

definition processFile :: "platform \<Rightarrow> source_file \<Rightarrow> state \<Rightarrow> state" where
  "processFile env file s =
     (case route env file s of
        (Inr _, s1) \<Rightarrow> s1
      | (Inl err, s1) \<Rightarrow>
          appendMessage (error_line file err) (s1\<lparr>console := console s1 @ [to_string err]\<rparr>))"

definition processFiles :: "platform \<Rightarrow> source_file list \<Rightarrow> state \<Rightarrow> state" where
  "processFiles env files s =
     (if files = [] then setStatus ''No files selected.'' s
      else let files1 = filter supported files in
        if files1 = [] then setStatus ''No supported image files found.'' s
        else let s1 = setStatus (''Processing '' @ show_nat (length files1) @ '' file(s)...'') s;
                 s2 = revokeAll s1;
                 s3 = s2\<lparr>outputEl := []\<rparr>
             in setStatus ''Done.'' (fold (processFile env) files1 s3))"

section \<open>Events of the page\<close>

text \<open>
  What can happen while the page is open: the user hands over a batch of files (picker or
  drop), the user clicks the download link whose \<open>href\<close> is the given URL (possible while
  its row is in \<open>#output\<close>), the oldest pending timer fires (every timer has the same delay,
  so they fire in the order they were set), and \<open>beforeunload\<close>. A batch is run from its
  start to its end; events that arrive while a batch is waiting are not interleaved with it.
\<close>

datatype event = Batch "source_file list" | Click url | Timeout | Unload

definition has_link :: "url \<Rightarrow> state \<Rightarrow> bool" where
  "has_link u s = list_ex (\<lambda>e. case e of Item r \<Rightarrow> href r = u | Log _ \<Rightarrow> False) (outputEl s)"

fun step :: "platform \<Rightarrow> event \<Rightarrow> state \<Rightarrow> state" where
  "step env (Batch files) s = processFiles env files s"
| "step env (Click u) s = (if has_link u s then s\<lparr>timers := timers s @ [u]\<rparr> else s)"
| "step env Timeout s =
     (case timers s of [] \<Rightarrow> s | u # ts \<Rightarrow> revoke u (s\<lparr>timers := ts\<rparr>))"
| "step env Unload s = revokeAll s"

definition run :: "platform \<Rightarrow> event list \<Rightarrow> state \<Rightarrow> state" where
  "run env evs s = fold (step env) evs s"

section \<open>Reading the output\<close>

text \<open>
  The progress line a file gets: the one of the HEIC path when the classifier says HEIC, the
  one of the standard path otherwise (also when the classifier throws).
\<close>

definition progress_line :: "platform \<Rightarrow> source_file \<Rightarrow> string" where
  "progress_line env file = (if isHeic env file = Inr True then heic_line file else image_line file)"


definition is_failure_line :: "entry \<Rightarrow> bool" where
  "is_failure_line e = (case e of Log t \<Rightarrow> startsWith t ''Error converting '' | Item _ \<Rightarrow> False)"

text \<open>The URLs of the download links in the output.\<close>

definition links :: "entry list \<Rightarrow> url list" where
  "links out = concat (map (\<lambda>e. case e of Item r \<Rightarrow> [href r] | Log _ \<Rightarrow> []) out)"

section \<open>A consistency condition on states\<close>

text \<open>
  Every URL the page knows has been handed out already, every tracked URL is in the store,
  and no URL of the store has been revoked.
\<close>

definition consistent :: "state \<Rightarrow> bool" where
  "consistent s =
     ((\<forall>u \<in> fst ` set (url_store s) \<union> set (revoked s) \<union> set (timers s) \<union>
          set (links (outputEl s)). u < next_url s) \<and>
      set (objectUrls s) \<subseteq> fst ` set (url_store s) \<and>
      set (revoked s) \<inter> fst ` set (url_store s) = {})"

section \<open>The standard model of double arithmetic\<close>

text \<open>
  What the scale computation needs of the rounding to the nearest double: within the range
  \<open>2^-64\<close> to \<open>2^64\<close> (far from underflow and overflow) the relative error is at most
  \<open>2^-53\<close>; rounding is monotone; integers below \<open>2^53\<close> are doubles. (The numerals are
  \<open>2^64\<close> and \<open>2^53\<close>.)
\<close>

definition double_rounding :: "(rat \<Rightarrow> rat) \<Rightarrow> bool" where
  "double_rounding rnd =
     ((\<forall>x. 1 / 18446744073709551616 \<le> x \<and> x \<le> 18446744073709551616 \<longrightarrow>
          \<bar>rnd x - x\<bar> \<le> x / 9007199254740992) \<and>
      (\<forall>x y. 0 \<le> x \<and> x \<le> y \<and> y \<le> 18446744073709551616 \<longrightarrow> rnd x \<le> rnd y) \<and>
      (\<forall>n::nat. n < 9007199254740992 \<longrightarrow> rnd (of_nat n) = of_nat n))"

section \<open>The specification's wording of the filter\<close>

text \<open>
  The specification keeps a file whose name ends in \<open>.heic\<close> or \<open>.heif\<close> in any mixture of
  upper and lower case: an ending that agrees with the extension character by character,
  each character being the extension's own or its upper-case form.
\<close>

definition upper_char :: "char \<Rightarrow> char" where
  "upper_char c =
     (let n = (of_char c :: nat) in if 97 \<le> n \<and> n \<le> 122 then char_of (n - 32) else c)"

definition any_case_of :: "string \<Rightarrow> string \<Rightarrow> bool" where
  "any_case_of ext lit = list_all2 (\<lambda>c d. c = d \<or> c = upper_char d) ext lit"

section \<open>Sample inputs\<close>

text \<open>
  A platform on which the classifier throws for the file whose bytes are 5 and says HEIC for
  the one whose bytes are 1, the image loader fails on the bytes 0 and decodes everything
  else to 480 by 360 pixels, every other operation succeeds, and no result of the
  arithmetic needs rounding.
\<close>

definition sample_platform :: platform where
  "sample_platform =
     \<lparr>isHeic = (\<lambda>f. if bytes f = 5 then Inl (Error ''TypeError'' ''bad header'')
                     else Inr (bytes f = 1)),
      heicTo = (\<lambda>f. Inr 7),
      decodeImage = (\<lambda>b. if b = 0 then None else Some (480, 360)),
      drawImage = (\<lambda>_ _. None),
      toBlob = (\<lambda>_. Some 9),
      toDataURL = (\<lambda>_. Inr ''data:image/jpeg;base64,AA''),
      fl = (\<lambda>x. x)\<rparr>"

definition photo_HEIC :: source_file where
  "photo_HEIC = \<lparr>name = ''photo.HEIC'', type = [], bytes = 1\<rparr>"

definition logo_png :: source_file where
  "logo_png = \<lparr>name = ''logo.png'', type = ''image/png'', bytes = 2\<rparr>"

definition notes_txt :: source_file where
  "notes_txt = \<lparr>name = ''notes.txt'', type = ''text/plain'', bytes = 3\<rparr>"

definition broken_png :: source_file where
  "broken_png = \<lparr>name = ''broken.png'', type = ''image/png'', bytes = 0\<rparr>"

definition mystery_jpg :: source_file where
  "mystery_jpg = \<lparr>name = ''mystery.jpg'', type = ''image/jpeg'', bytes = 5\<rparr>"

section \<open>Verified properties\<close>

subsection \<open>The tracked set\<close>

text \<open>
  Claim C8. After \<open>revokeAll\<close> the tracked set is empty; registering a handle and then
  revoking the same handle leaves a set that does not contain it; a second \<open>revokeAll\<close>
  right after the first changes nothing (it makes no call at all, and the set stays empty).
\<close>

theorem tracker_laws:
  "objectUrls (revokeAll s) = [] \<and>
   u \<notin> set (objectUrls (revoke u (register u s))) \<and>
   revokeAll (revokeAll s) = revokeAll s"
  by (simp add: revokeAll_def revoke_def Let_def)

subsection \<open>The transient URL of the blob thumbnail\<close>

text \<open>
  Claim C9. \<open>createThumbnailFromBlob\<close> revokes the URL it created (the one numbered
  \<open>next_url s\<close>) whatever its result is, a data URL or an exception of the loader, of the
  drawing or of the encoder: the call of \<open>revokeObjectURL\<close> is recorded and the store of
  the state it leaves no longer holds that URL.
\<close>

theorem thumbnail_from_blob_releases:
  "revoked (snd (createThumbnailFromBlob env b m s)) = revoked s @ [next_url s] \<and>
   next_url s \<notin> fst ` set (url_store (snd (createThumbnailFromBlob env b m s)))"
  by (auto simp add: createThumbnailFromBlob_def createObjectURL_def revokeObjectURL_def Let_def)

subsection \<open>Thumbnails are never larger than their source\<close>

lemma floor_half: "\<lfloor>(of_nat n :: rat) + 1 / 2\<rfloor> = int n"
  by linarith

lemma rnd_nat:
  assumes "double_rounding rnd" "n < 4294967296"
  shows "rnd (of_nat n) = of_nat n"
  using assms by (simp add: double_rounding_def)

lemma rnd_mono:
  "double_rounding rnd \<Longrightarrow> 0 \<le> x \<Longrightarrow> x \<le> y \<Longrightarrow> y \<le> 18446744073709551616 \<Longrightarrow> rnd x \<le> rnd y"
  by (simp add: double_rounding_def)

lemma rnd_error:
  "double_rounding rnd \<Longrightarrow> 1 / 18446744073709551616 \<le> x \<Longrightarrow> x \<le> 18446744073709551616 \<Longrightarrow>
   \<bar>rnd x - x\<bar> \<le> x / 9007199254740992"
  by (simp add: double_rounding_def)

lemma rnd_0: "double_rounding rnd \<Longrightarrow> rnd 0 = 0"
  using rnd_nat [of rnd 0] by simp

lemma rnd_1: "double_rounding rnd \<Longrightarrow> rnd 1 = 1"
  using rnd_nat [of rnd 1] by simp

lemma quotient_le:
  assumes "m < 9007199254740992" "w \<noteq> 0"
  shows "(of_nat m :: rat) / of_nat w \<le> 9007199254740992"
proof -
  have "(1::rat) \<le> of_nat w" using assms(2) by simp
  then have "(of_nat m :: rat) / of_nat w \<le> of_nat m"
    by (simp add: divide_le_eq mult_le_cancel_left1)
  moreover have "(of_nat m :: rat) \<le> 9007199254740992" using assms(1) by simp
  ultimately show ?thesis by linarith
qed

lemma scale_value:
  assumes r: "double_rounding rnd" and m: "m < 9007199254740992" and w: "w \<noteq> 0"
  shows "scale_of rnd m w = Fin (min (rnd (of_nat m / of_nat w)) 1) \<and>
    0 \<le> min (rnd (of_nat m / of_nat w)) 1"
proof -
  have "(of_nat m :: rat) / of_nat w \<le> 18446744073709551616"
    using quotient_le [OF m w] by linarith
  then have "rnd 0 \<le> rnd (of_nat m / of_nat w)"
    using rnd_mono [OF r, of 0 "of_nat m / of_nat w"] by simp
  then have "0 \<le> rnd (of_nat m / of_nat w)" using rnd_0 [OF r] by simp
  then show ?thesis using w by (simp add: scale_of_def divide_num_def)
qed

lemma rounded_product_le:
  assumes r: "double_rounding rnd" and h: "h < 4294967296" and q: "0 \<le> q" "q \<le> 1"
  shows "to_unsigned_long (Math_round (times_num rnd h (Fin q))) \<le> h"
proof -
  have x0: "0 \<le> of_nat h * q" using q by simp
  have xh: "of_nat h * q \<le> of_nat h" using q by (simp add: mult_left_le)
  have hb: "(of_nat h :: rat) \<le> 18446744073709551616" using h by simp
  have "rnd (of_nat h * q) \<le> rnd (of_nat h)"
    using rnd_mono [OF r x0 xh hb] .
  then have le: "rnd (of_nat h * q) \<le> of_nat h" using rnd_nat [OF r h] by simp
  have "rnd 0 \<le> rnd (of_nat h * q)"
    using rnd_mono [OF r, of 0 "of_nat h * q"] x0 xh hb by simp
  then have ge: "0 \<le> rnd (of_nat h * q)" using rnd_0 [OF r] by simp
  have "\<lfloor>rnd (of_nat h * q) + 1 / 2\<rfloor> \<le> \<lfloor>(of_nat h :: rat) + 1 / 2\<rfloor>"
    using le by (intro floor_mono) simp
  then have b: "\<lfloor>rnd (of_nat h * q) + 1 / 2\<rfloor> \<le> int h" by (simp only: floor_half)
  have c: "0 \<le> \<lfloor>rnd (of_nat h * q) + 1 / 2\<rfloor>" using ge by simp
  have "\<lfloor>rnd (of_nat h * q) + 1 / 2\<rfloor> mod 4294967296 \<le> \<lfloor>rnd (of_nat h * q) + 1 / 2\<rfloor>"
    using c by (simp add: zmod_le_nonneg_dividend)
  then show ?thesis using b c by simp
qed

lemma thumb_height:
  assumes r: "double_rounding rnd" and m: "m < 9007199254740992" and h: "h < 4294967296"
  shows "snd (thumb_size rnd (w, h) m) \<le> h"
proof (cases "w = 0")
  case True
  show ?thesis
  proof (cases "m = 0")
    case True
    with \<open>w = 0\<close> show ?thesis
      by (simp add: thumb_size_def Let_def scale_of_def divide_num_def)
  next
    case False
    with \<open>w = 0\<close> have "scale_of rnd m w = Fin 1"
      by (simp add: scale_of_def divide_num_def)
    with rounded_product_le [OF r h, of 1] show ?thesis
      by (simp add: thumb_size_def Let_def)
  qed
next
  case False
  from scale_value [OF r m False] rounded_product_le [OF r h, of "min (rnd (of_nat m / of_nat w)) 1"]
  show ?thesis by (simp add: thumb_size_def Let_def)
qed

text \<open>When the source is wider than \<open>maxWidth\<close>, the rounded product rounds to \<open>maxWidth\<close>.\<close>

lemma rounded_width:
  assumes r: "double_rounding rnd" and w: "w < 4294967296" and mw: "m < w" and m0: "0 < m"
  shows "\<lfloor>rnd (of_nat w * rnd (of_nat m / of_nat w)) + 1 / 2\<rfloor> = int m"
proof -
  define c :: rat where "c = of_nat m / of_nat w"
  define a where "a = rnd c"
  define x where "x = of_nat w * a"
  define b where "b = rnd x"
  define M :: rat where "M = of_nat m"
  define W :: rat where "W = of_nat w"
  have W0: "0 < W" and Wb: "W \<le> 4294967296" using w mw by (simp_all add: W_def)
  have M1: "1 \<le> M" and Mb: "M \<le> 4294967296" using w mw m0 by (simp_all add: M_def)
  have c_def': "c = M / W" by (simp add: c_def M_def W_def)
  have Wc: "W * c = M" using W0 by (simp add: c_def')
  have c1: "c \<le> 1" using W0 mw by (simp add: c_def' M_def W_def)
  have "1 / W \<le> c" using W0 M1 by (simp add: c_def' divide_right_mono)
  moreover have "1 / 18446744073709551616 \<le> 1 / W"
    using W0 Wb by (simp add: field_simps)
  ultimately have clow: "1 / 18446744073709551616 \<le> c" by linarith
  have ea: "\<bar>a - c\<bar> \<le> c / 9007199254740992"
    unfolding a_def using rnd_error [OF r clow] c1 by simp
  have "x - M = W * (a - c)"
    using Wc by (simp add: x_def W_def right_diff_distrib)
  then have "\<bar>x - M\<bar> = W * \<bar>a - c\<bar>"
    using W0 by (simp add: abs_mult)
  also have "\<dots> \<le> W * (c / 9007199254740992)"
    using W0 ea by (simp add: mult_left_mono)
  also have "\<dots> = M / 9007199254740992" using Wc by simp
  finally have ex: "\<bar>x - M\<bar> \<le> M / 9007199254740992" .
  have xlow: "1 / 18446744073709551616 \<le> x" using ex M1 by linarith
  have xup: "x \<le> 18446744073709551616" using ex Mb by linarith
  have eb: "\<bar>b - x\<bar> \<le> x / 9007199254740992"
    unfolding b_def using rnd_error [OF r xlow xup] .
  have "\<bar>b - M\<bar> < 1 / 2" using eb ex Mb M1 by linarith
  then have "M \<le> b + 1 / 2" "b + 1 / 2 < M + 1" by linarith+
  then have "\<lfloor>b + 1 / 2\<rfloor> = int m"
    by (intro floor_unique) (simp_all add: M_def)
  then show ?thesis by (simp add: b_def x_def a_def c_def)
qed

lemma thumb_width:
  assumes r: "double_rounding rnd" and w: "w < 4294967296" and m: "m < 9007199254740992"
  shows "fst (thumb_size rnd (w, h) m) \<le> min w m"
proof -
  consider "w = 0" "m = 0" | "w = 0" "m \<noteq> 0" | "w \<noteq> 0" "w \<le> m" | "w \<noteq> 0" "m = 0"
    | "0 < m" "m < w"
    by linarith
  then show ?thesis
  proof cases
    case 1
    then show ?thesis by (simp add: thumb_size_def Let_def scale_of_def divide_num_def)
  next
    case 2
    then show ?thesis
      using rnd_0 [OF r] by (simp add: thumb_size_def Let_def scale_of_def divide_num_def)
  next
    case 3
    have "(1::rat) \<le> of_nat m / of_nat w" using 3 by (simp add: le_divide_eq)
    moreover have "(of_nat m :: rat) / of_nat w \<le> 18446744073709551616"
      using quotient_le [OF m 3(1)] by linarith
    ultimately have "rnd 1 \<le> rnd (of_nat m / of_nat w)"
      using rnd_mono [OF r, of 1 "of_nat m / of_nat w"] by simp
    then have "min (rnd (of_nat m / of_nat w)) 1 = 1" using rnd_1 [OF r] by simp
    then have "times_num rnd w (scale_of rnd m w) = Fin (of_nat w)"
      using 3 rnd_nat [OF r w] by (simp add: scale_of_def divide_num_def)
    then have "fst (thumb_size rnd (w, h) m) = nat (int w mod 4294967296)"
      by (simp add: thumb_size_def Let_def floor_half)
    moreover have "int w mod 4294967296 \<le> int w"
      by (simp add: zmod_le_nonneg_dividend)
    ultimately show ?thesis using 3 by linarith
  next
    case 4
    then show ?thesis
      using rnd_0 [OF r] by (simp add: thumb_size_def Let_def scale_of_def divide_num_def)
  next
    case 5
    then have w0: "w \<noteq> 0" by simp
    have "(of_nat m :: rat) / of_nat w \<le> 1" using 5 by (simp add: divide_le_eq)
    then have "rnd (of_nat m / of_nat w) \<le> rnd 1"
      using rnd_mono [OF r, of "of_nat m / of_nat w" 1] by simp
    then have "min (rnd (of_nat m / of_nat w)) 1 = rnd (of_nat m / of_nat w)"
      using rnd_1 [OF r] by simp
    then have "times_num rnd w (scale_of rnd m w) =
        Fin (rnd (of_nat w * rnd (of_nat m / of_nat w)))"
      using w0 by (simp add: scale_of_def divide_num_def)
    then have "fst (thumb_size rnd (w, h) m) = nat (int m mod 4294967296)"
      using rounded_width [OF r w 5(2) 5(1)] by (simp add: thumb_size_def Let_def)
    moreover have "int m mod 4294967296 \<le> int m"
      by (simp add: zmod_le_nonneg_dividend)
    ultimately show ?thesis using 5 by linarith
  qed
qed

lemma double_rounding_exact: "double_rounding (\<lambda>x. x)"
  by (simp add: double_rounding_def)

text \<open>
  Claim C7. Under the standard model of double arithmetic, for a source of \<open>w\<close> by \<open>h\<close>
  pixels (unsigned longs) and a \<open>maxWidth\<close> of \<open>m\<close> (an integer below \<open>2^53\<close>): the scale
  is \<open>min (m / w) 1\<close>, the quotient being the double the division gives (and the scale is 1
  when \<open>w\<close> is 0 and \<open>m\<close> is not); the thumbnail canvas is at most \<open>min w m\<close> wide and at
  most \<open>h\<close> high; and that canvas is the one each entry point encodes: the one from a
  canvas, and the one from a blob for the image the blob decodes to.
\<close>

theorem thumbnail_never_upscales:
  assumes "double_rounding (fl env)" "w < 4294967296" "h < 4294967296" "m < 9007199254740992"
  shows "(0 < w \<longrightarrow> scale_of (fl env) m w = Fin (min (fl env (of_nat m / of_nat w)) 1)) \<and>
    (w = 0 \<and> 0 < m \<longrightarrow> scale_of (fl env) m w = Fin 1) \<and>
    fst (thumb_size (fl env) (w, h) m) \<le> min w m \<and>
    snd (thumb_size (fl env) (w, h) m) \<le> h \<and>
    (\<forall>d. createThumbnailDataUrl env (w, h) m = Inr (Some d) \<longrightarrow>
       toDataURL env (thumb_size (fl env) (w, h) m) = Inr d) \<and>
    (\<forall>d. fst (createThumbnailFromBlob env b m s) = Inr d \<longrightarrow>
       (\<exists>img. decodeImage env b = Some img \<and>
          toDataURL env (thumb_size (fl env) img m) = Inr d))"
proof -
  have 1: "0 < w \<longrightarrow> scale_of (fl env) m w = Fin (min (fl env (of_nat m / of_nat w)) 1)"
    by (simp add: scale_of_def divide_num_def)
  have 2: "w = 0 \<and> 0 < m \<longrightarrow> scale_of (fl env) m w = Fin 1"
    by (simp add: scale_of_def divide_num_def)
  have 3: "fst (thumb_size (fl env) (w, h) m) \<le> min w m"
    using assms by (intro thumb_width)
  have 4: "snd (thumb_size (fl env) (w, h) m) \<le> h"
    using assms by (intro thumb_height)
  have 5: "\<forall>d. createThumbnailDataUrl env (w, h) m = Inr (Some d) \<longrightarrow>
      toDataURL env (thumb_size (fl env) (w, h) m) = Inr d"
    by (auto simp add: createThumbnailDataUrl_def Let_def split: if_splits option.splits sum.splits)
  have 6: "\<forall>d. fst (createThumbnailFromBlob env b m s) = Inr d \<longrightarrow>
      (\<exists>img. decodeImage env b = Some img \<and>
         toDataURL env (thumb_size (fl env) img m) = Inr d)"
    by (auto simp add: createThumbnailFromBlob_def createObjectURL_def thumbnail_try_def
        loadImage_def Let_def split: option.splits sum.splits)
  show ?thesis using 1 2 3 4 5 6 by blast
qed

theorem thumbnail_never_upscales_witness:
  "double_rounding (fl sample_platform) \<and>
   scale_of (fl sample_platform) 240 480 = Fin (1 / 2) \<and>
   thumb_size (fl sample_platform) (480, 360) 240 = (240, 180) \<and>
   toDataURL sample_platform (thumb_size (fl sample_platform) (480, 360) 240) =
     Inr ''data:image/jpeg;base64,AA'' \<and>
   (\<exists>img. decodeImage sample_platform 7 = Some img \<and>
      toDataURL sample_platform (thumb_size (fl sample_platform) img 240) =
        Inr ''data:image/jpeg;base64,AA'')"
proof -
  have r: "double_rounding (fl sample_platform)"
    by (simp add: sample_platform_def double_rounding_exact)
  note t = thumbnail_never_upscales [OF r, of 480 360 240 7 init]
  have a: "createThumbnailDataUrl sample_platform (480, 360) 240 =
      Inr (Some ''data:image/jpeg;base64,AA'')"
    by code_simp
  have b: "fst (createThumbnailFromBlob sample_platform 7 240 init) =
      Inr ''data:image/jpeg;base64,AA''"
    by code_simp
  have c: "thumb_size (fl sample_platform) (480, 360) 240 = (240, 180)"
    by code_simp
  have f: "fl sample_platform (of_nat 240 / of_nat 480) = 1 / 2"
    by (simp add: sample_platform_def)
  have "scale_of (fl sample_platform) 240 480 = Fin (1 / 2)" using t f by simp
  moreover have "toDataURL sample_platform (thumb_size (fl sample_platform) (480, 360) 240) =
      Inr ''data:image/jpeg;base64,AA''"
    using t a by simp
  moreover have "\<exists>img. decodeImage sample_platform 7 = Some img \<and>
      toDataURL sample_platform (thumb_size (fl sample_platform) img 240) =
        Inr ''data:image/jpeg;base64,AA''"
    using t b by simp
  ultimately show ?thesis using r c by blast
qed

subsection \<open>The input filter\<close>

lemma of_char_lt: "(of_char c :: nat) < 256"
  by (cases c) simp

lemma char_eq_nat: "(x :: char) = y \<longleftrightarrow> (of_char x :: nat) = of_char y"
  by simp

lemma of_char_lower: "(of_char (lower_char c) :: nat) =
    (if 65 \<le> (of_char c :: nat) \<and> (of_char c :: nat) \<le> 90 then of_char c + 32 else of_char c)"
  using of_char_lt [of c] by (simp add: lower_char_def Let_def)

lemma of_char_upper: "(of_char (upper_char c) :: nat) =
    (if 97 \<le> (of_char c :: nat) \<and> (of_char c :: nat) \<le> 122 then of_char c - 32 else of_char c)"
  using of_char_lt [of c] by (simp add: upper_char_def Let_def less_imp_diff_less)

lemma lower_char_eq_iff:
  assumes "lower_char d = d"
  shows "lower_char c = d \<longleftrightarrow> c = d \<or> c = upper_char d"
proof -
  have d: "\<not> (65 \<le> (of_char d :: nat) \<and> (of_char d :: nat) \<le> 90)"
    using assms of_char_lower [of d] by (auto simp add: char_eq_nat simp del: of_char_eq_iff)
  show ?thesis
    unfolding char_eq_nat [of "lower_char c"] char_eq_nat [of c] of_char_lower of_char_upper
    using d by auto
qed

lemma endsWith_suffix: "endsWith s p \<longleftrightarrow> suffix p s"
proof
  assume "endsWith s p"
  then have "drop (length s - length p) s = p" by (simp add: endsWith_def)
  then show "suffix p s" by (metis suffix_drop)
next
  assume "suffix p s"
  then obtain zs where "s = zs @ p" by (auto simp: suffix_def)
  then show "endsWith s p" by (simp add: endsWith_def)
qed

lemma startsWith_prefix: "startsWith s p \<longleftrightarrow> prefix p s"
proof
  assume "startsWith s p"
  then have "take (length p) s = p" by (simp add: startsWith_def)
  then show "prefix p s" by (metis take_is_prefix)
next
  assume "prefix p s"
  then obtain zs where "s = p @ zs" by (auto simp: prefix_def)
  then show "startsWith s p" by (simp add: startsWith_def)
qed

lemma map_lower_iff:
  "\<forall>d \<in> set lit. lower_char d = d \<Longrightarrow> map lower_char ext = lit \<longleftrightarrow> any_case_of ext lit"
proof (induction ext arbitrary: lit)
  case Nil
  then show ?case by (auto simp add: any_case_of_def)
next
  case (Cons c ext)
  show ?case
  proof (cases lit)
    case Nil
    then show ?thesis by (simp add: any_case_of_def)
  next
    case (Cons d lit')
    with Cons.prems have d: "lower_char d = d" and r: "\<forall>d \<in> set lit'. lower_char d = d"
      by simp_all
    from Cons.IH [OF r] lower_char_eq_iff [OF d, of c] show ?thesis
      by (simp add: Cons any_case_of_def)
  qed
qed

lemma suffix_map_iff: "suffix p (map f s) \<longleftrightarrow> (\<exists>e. suffix e s \<and> map f e = p)"
  by (metis suffix_map_rightE map_mono_suffix)

lemma lower_lits:
  "\<forall>d \<in> set ''.heic''. lower_char d = d" "\<forall>d \<in> set ''.heif''. lower_char d = d"
  by (simp_all add: lower_char_def)

lemma ends_any_case:
  assumes "\<forall>d \<in> set lit. lower_char d = d"
  shows "endsWith (toLowerCase n) lit \<longleftrightarrow> (\<exists>ext. suffix ext n \<and> any_case_of ext lit)"
  using map_lower_iff [OF assms]
  by (simp add: endsWith_suffix toLowerCase_def suffix_map_iff)

text \<open>
  Claim C3. The filter keeps a file exactly when its declared type starts with \<open>image/\<close> or
  its name ends in \<open>.heic\<close> or \<open>.heif\<close> in any mixture of upper and lower case. The files it
  drops leave no trace: a batch of which at least one file is kept is processed exactly as
  the batch of its kept files alone.
\<close>

theorem filter_keeps_iff:
  "(supported file \<longleftrightarrow>
      prefix ''image/'' (type file) \<or>
      (\<exists>ext. suffix ext (name file) \<and> (any_case_of ext ''.heic'' \<or> any_case_of ext ''.heif''))) \<and>
   (filter supported files \<noteq> [] \<longrightarrow>
      processFiles env files s = processFiles env (filter supported files) s)"
proof -
  have "supported file \<longleftrightarrow>
      prefix ''image/'' (type file) \<or>
      (\<exists>ext. suffix ext (name file) \<and> (any_case_of ext ''.heic'' \<or> any_case_of ext ''.heif''))"
    unfolding supported_def startsWith_prefix ends_any_case [OF lower_lits(1)]
      ends_any_case [OF lower_lits(2)] by blast
  moreover have "filter supported files \<noteq> [] \<longrightarrow>
      processFiles env files s = processFiles env (filter supported files) s"
    by (auto simp add: processFiles_def)
  ultimately show ?thesis by blast
qed

theorem filter_keeps_iff_witness:
  "supported photo_HEIC \<and>
   filter supported [photo_HEIC, logo_png, notes_txt] = [photo_HEIC, logo_png] \<and>
   processFiles sample_platform [photo_HEIC, logo_png, notes_txt] init =
     processFiles sample_platform [photo_HEIC, logo_png] init"
proof -
  note t = filter_keeps_iff [of photo_HEIC "[photo_HEIC, logo_png, notes_txt]" sample_platform init]
  have f: "filter supported [photo_HEIC, logo_png, notes_txt] = [photo_HEIC, logo_png]"
    by code_simp
  have a: "any_case_of ''.HEIC'' ''.heic''"
    by code_simp
  have "suffix ''.HEIC'' (name photo_HEIC)"
    by (simp add: photo_HEIC_def suffix_def)
  with a t have "supported photo_HEIC" by blast
  moreover have "processFiles sample_platform [photo_HEIC, logo_png, notes_txt] init =
     processFiles sample_platform [photo_HEIC, logo_png] init"
    using t f by simp
  ultimately show ?thesis using f by blast
qed

subsection \<open>What one file does to the page\<close>

lemma safeIsHeic_fst: "fst (safeIsHeic env f s) = (isHeic env f = Inr True)"
  by (auto simp add: safeIsHeic_def split: sum.splits)

lemma safeIsHeic_fields:
  "objectUrls (snd (safeIsHeic env f s)) = objectUrls s"
  "url_store (snd (safeIsHeic env f s)) = url_store s"
  "next_url (snd (safeIsHeic env f s)) = next_url s"
  "revoked (snd (safeIsHeic env f s)) = revoked s"
  "outputEl (snd (safeIsHeic env f s)) = outputEl s"
  "timers (snd (safeIsHeic env f s)) = timers s"
  by (auto simp add: safeIsHeic_def split: sum.splits)

lemma thumb_fields:
  "objectUrls (snd (createThumbnailFromBlob env b m s)) = objectUrls s"
  "outputEl (snd (createThumbnailFromBlob env b m s)) = outputEl s"
  "timers (snd (createThumbnailFromBlob env b m s)) = timers s"
  "next_url (snd (createThumbnailFromBlob env b m s)) = Suc (next_url s)"
  "revoked (snd (createThumbnailFromBlob env b m s)) = revoked s @ [next_url s]"
  "url_store (snd (createThumbnailFromBlob env b m s)) =
     filter (\<lambda>kv. fst kv \<noteq> next_url s) (url_store s)"
  by (simp_all add: createThumbnailFromBlob_def createObjectURL_def revokeObjectURL_def Let_def)


lemma addDownloadLink_fields:
  "outputEl (addDownloadLink n b d s) = outputEl s @
     [Item \<lparr>thumb = (case d of None \<Rightarrow> None | Some x \<Rightarrow> if x = [] then None else Some (x, baseName n)),
        label = baseName n @ ''.jpg'', href = next_url s, download = baseName n @ ''.jpg''\<rparr>]"
  "objectUrls (addDownloadLink n b d s) = objectUrls (register (next_url s) s)"
  "url_store (addDownloadLink n b d s) = (next_url s, b) # url_store s"
  "revoked (addDownloadLink n b d s) = revoked s"
  "next_url (addDownloadLink n b d s) = Suc (next_url s)"
  "timers (addDownloadLink n b d s) = timers s"
  by (simp_all add: addDownloadLink_def createObjectURL_def register_def Let_def)

lemma appendMessage_fields:
  "outputEl (appendMessage x s) = outputEl s @ [Log x]"
  "objectUrls (appendMessage x s) = objectUrls s"
  "url_store (appendMessage x s) = url_store s"
  "revoked (appendMessage x s) = revoked s"
  "next_url (appendMessage x s) = next_url s"
  "timers (appendMessage x s) = timers s"
  by (simp_all add: appendMessage_def)

text \<open>The two paths, with their pairs taken apart.\<close>

lemma heic_unfold:
  "convertHeicFileToJpeg env f s =
     (case heicTo env f of
        Inl e \<Rightarrow> (Inl e, appendMessage (heic_line f) s)
      | Inr b \<Rightarrow>
          (case fst (createThumbnailFromBlob env b 240 (appendMessage (heic_line f) s)) of
             Inl e \<Rightarrow> (Inl e, snd (createThumbnailFromBlob env b 240 (appendMessage (heic_line f) s)))
           | Inr d \<Rightarrow> (Inr (), addDownloadLink (name f) b (Some d)
               (snd (createThumbnailFromBlob env b 240 (appendMessage (heic_line f) s))))))"
  by (simp add: convertHeicFileToJpeg_def Let_def split: sum.split prod.split)


lemma createObjectURL_fields:
  "fst (createObjectURL b s) = next_url s"
  "outputEl (snd (createObjectURL b s)) = outputEl s"
  "objectUrls (snd (createObjectURL b s)) = objectUrls s"
  "url_store (snd (createObjectURL b s)) = (next_url s, b) # url_store s"
  "revoked (snd (createObjectURL b s)) = revoked s"
  "next_url (snd (createObjectURL b s)) = Suc (next_url s)"
  "timers (snd (createObjectURL b s)) = timers s"
  by (simp_all add: createObjectURL_def)

lemma revokeObjectURL_fields:
  "outputEl (revokeObjectURL u s) = outputEl s"
  "objectUrls (revokeObjectURL u s) = objectUrls s"
  "url_store (revokeObjectURL u s) = filter (\<lambda>kv. fst kv \<noteq> u) (url_store s)"
  "revoked (revokeObjectURL u s) = revoked s @ [u]"
  "next_url (revokeObjectURL u s) = next_url s"
  "timers (revokeObjectURL u s) = timers s"
  by (simp_all add: revokeObjectURL_def)

lemma image_unfold:
  "convertImageFileToJpeg env f s =
     (case decodeImage env (bytes f) of
        None \<Rightarrow> (Inl (Error ''Error'' ''Failed to load image''),
                 snd (createObjectURL (bytes f) (appendMessage (image_line f) s)))
      | Some img \<Rightarrow>
          (case drawImage env img img of
             Some e \<Rightarrow> (Inl e, (revokeObjectURL (next_url s)
                 (snd (createObjectURL (bytes f) (appendMessage (image_line f) s))))\<lparr>canvas := img\<rparr>)
           | None \<Rightarrow>
               (case createThumbnailDataUrl env img 240 of
                  Inl e \<Rightarrow> (Inl e, (revokeObjectURL (next_url s)
                      (snd (createObjectURL (bytes f) (appendMessage (image_line f) s))))\<lparr>canvas := img\<rparr>)
                | Inr th \<Rightarrow>
                    (case canvasToJpegBlob env img of
                       Inl e \<Rightarrow> (Inl e, (revokeObjectURL (next_url s)
                           (snd (createObjectURL (bytes f) (appendMessage (image_line f) s))))\<lparr>canvas := img\<rparr>)
                     | Inr jb \<Rightarrow> (Inr (), addDownloadLink (name f) jb th
                         ((revokeObjectURL (next_url s)
                           (snd (createObjectURL (bytes f) (appendMessage (image_line f) s))))\<lparr>canvas := img\<rparr>))))))"
  by (simp add: convertImageFileToJpeg_def Let_def split_def loadImage_def createObjectURL_fields
      appendMessage_fields split: option.split sum.split)

lemma image_result_indep:
  "fst (convertImageFileToJpeg env f s) = fst (convertImageFileToJpeg env f t)"
  unfolding image_unfold by (simp split: option.split sum.split)

lemma route_unfold:
  "route env f s =
     (if isHeic env f = Inr True then convertHeicFileToJpeg env f (snd (safeIsHeic env f s))
      else convertImageFileToJpeg env f (snd (safeIsHeic env f s)))"
  by (simp add: route_def split_def safeIsHeic_fst)


lemma heic_fails_tracker:
  "fst (convertHeicFileToJpeg env f s) = Inl e \<Longrightarrow>
   objectUrls (snd (convertHeicFileToJpeg env f s)) = objectUrls s"
  unfolding heic_unfold
  by (auto simp add: thumb_fields appendMessage_fields split: sum.splits)

lemma image_fails_tracker:
  "fst (convertImageFileToJpeg env f s) = Inl e \<Longrightarrow>
   objectUrls (snd (convertImageFileToJpeg env f s)) = objectUrls s"
  unfolding image_unfold
  by (auto simp add: createObjectURL_fields revokeObjectURL_fields appendMessage_fields
      split: sum.splits option.splits)

lemma route_fails_tracker:
  "fst (route env f s) = Inl e \<Longrightarrow> objectUrls (snd (route env f s)) = objectUrls s"
  unfolding route_unfold
  using heic_fails_tracker [of env f "snd (safeIsHeic env f s)" e]
    image_fails_tracker [of env f "snd (safeIsHeic env f s)" e]
  by (simp add: safeIsHeic_fields split: if_splits)

lemma register_set: "set (objectUrls (register u s)) = insert u (set (objectUrls s))"
  by (auto simp add: register_def)

lemma addDownloadLink_row:
  "\<exists>r. label r = baseName n @ ''.jpg'' \<and> href r = next_url s \<and>
     outputEl (addDownloadLink n b d s) = outputEl s @ [Item r]"
  by (simp add: addDownloadLink_fields)

lemma heic_fails_output:
  "fst (convertHeicFileToJpeg env f s) = Inl e \<Longrightarrow>
   outputEl (snd (convertHeicFileToJpeg env f s)) = outputEl s @ [Log (heic_line f)]"
  unfolding heic_unfold
  by (auto simp add: thumb_fields appendMessage_fields split: sum.splits)

lemma image_fails_output:
  "fst (convertImageFileToJpeg env f s) = Inl e \<Longrightarrow>
   outputEl (snd (convertImageFileToJpeg env f s)) = outputEl s @ [Log (image_line f)]"
  unfolding image_unfold
  by (auto simp add: createObjectURL_fields revokeObjectURL_fields appendMessage_fields
      split: sum.splits option.splits)

lemma heic_succeeds:
  "fst (convertHeicFileToJpeg env f s) = Inr x \<Longrightarrow>
   \<exists>r. label r = baseName (name f) @ ''.jpg'' \<and>
     outputEl (snd (convertHeicFileToJpeg env f s)) = outputEl s @ [Log (heic_line f), Item r] \<and>
     set (objectUrls (snd (convertHeicFileToJpeg env f s))) = insert (href r) (set (objectUrls s))"
  unfolding heic_unfold
  by (auto simp add: thumb_fields appendMessage_fields addDownloadLink_fields register_set
      split: sum.splits)

lemma image_succeeds:
  "fst (convertImageFileToJpeg env f s) = Inr x \<Longrightarrow>
   \<exists>r. label r = baseName (name f) @ ''.jpg'' \<and>
     outputEl (snd (convertImageFileToJpeg env f s)) = outputEl s @ [Log (image_line f), Item r] \<and>
     set (objectUrls (snd (convertImageFileToJpeg env f s))) = insert (href r) (set (objectUrls s))"
  unfolding image_unfold
  by (auto simp add: createObjectURL_fields revokeObjectURL_fields appendMessage_fields
      addDownloadLink_fields register_set split: sum.splits option.splits)

lemma route_fails_output:
  "fst (route env f s) = Inl e \<Longrightarrow>
   outputEl (snd (route env f s)) = outputEl s @ [Log (progress_line env f)]"
  unfolding route_unfold progress_line_def
  using heic_fails_output [of env f "snd (safeIsHeic env f s)" e]
    image_fails_output [of env f "snd (safeIsHeic env f s)" e]
  by (simp add: safeIsHeic_fields split: if_splits)

lemma route_succeeds:
  "fst (route env f s) = Inr x \<Longrightarrow>
   \<exists>r. label r = baseName (name f) @ ''.jpg'' \<and>
     outputEl (snd (route env f s)) = outputEl s @ [Log (progress_line env f), Item r] \<and>
     set (objectUrls (snd (route env f s))) = insert (href r) (set (objectUrls s))"
  unfolding route_unfold progress_line_def
  using heic_succeeds [of env f "snd (safeIsHeic env f s)" x]
    image_succeeds [of env f "snd (safeIsHeic env f s)" x]
  by (simp add: safeIsHeic_fields split: if_splits)

lemma processFile_unfold:
  "processFile env f s =
     (case fst (route env f s) of
        Inr x \<Rightarrow> snd (route env f s)
      | Inl err \<Rightarrow> appendMessage (error_line f err)
          ((snd (route env f s))\<lparr>console := console (snd (route env f s)) @ [to_string err]\<rparr>))"
  by (simp add: processFile_def split: prod.split sum.split)

lemma processFile_fails:
  "fst (route env f s) = Inl err \<Longrightarrow>
   outputEl (processFile env f s) =
     outputEl s @ [Log (progress_line env f), Log (error_line f err)] \<and>
   objectUrls (processFile env f s) = objectUrls s"
  using route_fails_output [of env f s err] route_fails_tracker [of env f s err]
  by (simp add: processFile_unfold appendMessage_fields)

lemma processFile_succeeds:
  "fst (route env f s) = Inr x \<Longrightarrow>
   \<exists>r. label r = baseName (name f) @ ''.jpg'' \<and>
     outputEl (processFile env f s) = outputEl s @ [Log (progress_line env f), Item r] \<and>
     set (objectUrls (processFile env f s)) = insert (href r) (set (objectUrls s))"
  using route_succeeds [of env f s x]
  by (simp add: processFile_unfold)

text \<open>
  Claim C10. A download handle is registered only by a conversion that succeeds. When the
  conversion of a file throws, at whatever point, the tracked set after the \<open>try\<close> block
  and after the \<open>catch\<close> block is the one from before the file. When it succeeds, the file
  has appended its progress line and one row, and the set has gained the handle of that row.
\<close>

theorem registration_only_on_success:
  "(\<forall>err. fst (route env f s) = Inl err \<longrightarrow>
      objectUrls (snd (route env f s)) = objectUrls s \<and>
      objectUrls (processFile env f s) = objectUrls s) \<and>
   (\<forall>x. fst (route env f s) = Inr x \<longrightarrow>
      (\<exists>r. outputEl (processFile env f s) = outputEl s @ [Log (progress_line env f), Item r] \<and>
         set (objectUrls (processFile env f s)) = insert (href r) (set (objectUrls s))))"
  using route_fails_tracker [of env f s] processFile_fails [of env f s]
    processFile_succeeds [of env f s]
  by blast

theorem registration_only_on_success_witness:
  "fst (route sample_platform broken_png (processFiles sample_platform [logo_png] init)) =
     Inl (Error ''Error'' ''Failed to load image'') \<and>
   objectUrls (processFiles sample_platform [logo_png] init) = [1] \<and>
   objectUrls (processFile sample_platform broken_png
     (processFiles sample_platform [logo_png] init)) = [1]"
proof -
  have h: "fst (route sample_platform broken_png (processFiles sample_platform [logo_png] init)) =
     Inl (Error ''Error'' ''Failed to load image'')"
    by code_simp
  have o: "objectUrls (processFiles sample_platform [logo_png] init) = [1]"
    by code_simp
  from registration_only_on_success [of sample_platform broken_png
      "processFiles sample_platform [logo_png] init"] h
  have "objectUrls (processFile sample_platform broken_png
     (processFiles sample_platform [logo_png] init)) =
     objectUrls (processFiles sample_platform [logo_png] init)"
    by blast
  then show ?thesis using h o by simp
qed

subsection \<open>Rows and failure lines\<close>





lemma setStatus_fields:
  "outputEl (setStatus m s) = outputEl s"
  "objectUrls (setStatus m s) = objectUrls s"
  "url_store (setStatus m s) = url_store s"
  "revoked (setStatus m s) = revoked s"
  "next_url (setStatus m s) = next_url s"
  "timers (setStatus m s) = timers s"
  "status (setStatus m s) = m"
  by (simp_all add: setStatus_def)

lemma processFiles_unfold:
  "filter supported files \<noteq> [] \<Longrightarrow>
   processFiles env files s =
     setStatus ''Done.'' (fold (processFile env) (filter supported files)
       ((revokeAll (setStatus (''Processing '' @ show_nat (length (filter supported files)) @
          '' file(s)...'') s))\<lparr>outputEl := []\<rparr>))"
  by (auto simp add: processFiles_def Let_def)




subsection \<open>Failures are caught file by file\<close>





subsection \<open>A classifier that throws\<close>

text \<open>
  Claim C6. When the classifier throws for a file, \<open>safeIsHeic\<close> answers \<open>false\<close> and leaves
  the output alone, and the file takes the standard path. The classifier's failure is not a
  failure of the file (if the standard path succeeds the file gets its row) nor of the batch
  (the final status is \<open>Done.\<close>).
\<close>

theorem classifier_failure_is_not_heic:
  assumes "isHeic env f = Inl e"
  shows "fst (safeIsHeic env f s) = False \<and>
    outputEl (snd (safeIsHeic env f s)) = outputEl s \<and>
    route env f s = convertImageFileToJpeg env f (snd (safeIsHeic env f s)) \<and>
    progress_line env f = image_line f \<and>
    (\<forall>x. fst (convertImageFileToJpeg env f s) = Inr x \<longrightarrow>
       (\<exists>r. outputEl (processFile env f s) = outputEl s @ [Log (image_line f), Item r])) \<and>
    (supported f \<longrightarrow> status (processFiles env [f] s) = ''Done.'')"
proof -
  have a: "fst (safeIsHeic env f s) = False" using assms by (simp add: safeIsHeic_fst)
  have b: "route env f s = convertImageFileToJpeg env f (snd (safeIsHeic env f s))"
    using assms by (simp add: route_unfold)
  have c: "progress_line env f = image_line f" using assms by (simp add: progress_line_def)
  have d: "\<forall>x. fst (convertImageFileToJpeg env f s) = Inr x \<longrightarrow>
       (\<exists>r. outputEl (processFile env f s) = outputEl s @ [Log (image_line f), Item r])"
  proof (intro allI impI)
    fix x assume "fst (convertImageFileToJpeg env f s) = Inr x"
    then have "fst (route env f s) = Inr x"
      using b image_result_indep [of env f s "snd (safeIsHeic env f s)"] by simp
    from processFile_succeeds [OF this] c
    show "\<exists>r. outputEl (processFile env f s) = outputEl s @ [Log (image_line f), Item r]"
      by auto
  qed
  have e: "supported f \<longrightarrow> status (processFiles env [f] s) = ''Done.''"
    by (simp add: processFiles_def Let_def setStatus_fields)
  show ?thesis using a b c d e by (simp add: safeIsHeic_fields)
qed

theorem classifier_failure_is_not_heic_witness:
  "isHeic sample_platform mystery_jpg = Inl (Error ''TypeError'' ''bad header'') \<and>
   fst (safeIsHeic sample_platform mystery_jpg init) = False \<and>
   route sample_platform mystery_jpg init =
     convertImageFileToJpeg sample_platform mystery_jpg
       (snd (safeIsHeic sample_platform mystery_jpg init)) \<and>
   status (processFiles sample_platform [mystery_jpg] init) = ''Done.'' \<and>
   filter is_failure_line (outputEl (processFiles sample_platform [mystery_jpg] init)) = []"
proof -
  have h: "isHeic sample_platform mystery_jpg = Inl (Error ''TypeError'' ''bad header'')"
    by code_simp
  have s: "supported mystery_jpg"
    by code_simp
  have n: "filter is_failure_line (outputEl (processFiles sample_platform [mystery_jpg] init)) = []"
    by code_simp
  from classifier_failure_is_not_heic [OF h, of init] s
  have "fst (safeIsHeic sample_platform mystery_jpg init) = False \<and>
   route sample_platform mystery_jpg init =
     convertImageFileToJpeg sample_platform mystery_jpg
       (snd (safeIsHeic sample_platform mystery_jpg init)) \<and>
   status (processFiles sample_platform [mystery_jpg] init) = ''Done.''"
    by blast
  then show ?thesis using h n by blast
qed

subsection \<open>The life of a download handle\<close>

lemma consistent_init: "consistent init"
  by (simp add: consistent_def init_def links_def)

lemma links_append: "links (xs @ ys) = links xs @ links ys"
  by (simp add: links_def)

lemma links_simps: "links [] = []" "links [Log t] = []" "links [Item r] = [href r]"
  by (simp_all add: links_def)

lemma list_ex_links:
  "list_ex (\<lambda>e. case e of Item r \<Rightarrow> href r = u | Log _ \<Rightarrow> False) out \<longleftrightarrow> u \<in> set (links out)"
  by (induction out) (auto simp add: links_def split: entry.splits)

lemma has_link_iff: "has_link u s \<longleftrightarrow> u \<in> set (links (outputEl s))"
  by (simp add: has_link_def list_ex_links)

lemma consistent_iff:
  "consistent s \<longleftrightarrow>
     (\<forall>kv \<in> set (url_store s). fst kv < next_url s) \<and>
     (\<forall>u \<in> set (revoked s). u < next_url s) \<and>
     (\<forall>u \<in> set (timers s). u < next_url s) \<and>
     (\<forall>u \<in> set (links (outputEl s)). u < next_url s) \<and>
     (\<forall>u \<in> set (objectUrls s). u \<in> fst ` set (url_store s)) \<and>
     (\<forall>u \<in> set (revoked s). u \<notin> fst ` set (url_store s))"
  by (auto simp add: consistent_def)

lemma consistent_fields:
  assumes "url_store t = url_store s" "revoked t = revoked s" "timers t = timers s"
    "links (outputEl t) = links (outputEl s)" "next_url t = next_url s" "objectUrls t = objectUrls s"
  shows "consistent t = consistent s"
  using assms by (simp add: consistent_def)

lemma consistent_setStatus: "consistent (setStatus m s) = consistent s"
  by (rule consistent_fields) (simp_all add: setStatus_fields)

lemma consistent_appendMessage: "consistent (appendMessage m s) = consistent s"
  by (rule consistent_fields) (simp_all add: appendMessage_fields links_append links_simps)

lemma consistent_console: "consistent (s\<lparr>console := c\<rparr>) = consistent s"
  by (rule consistent_fields) simp_all

lemma consistent_canvas: "consistent (s\<lparr>canvas := c\<rparr>) = consistent s"
  by (rule consistent_fields) simp_all

lemma consistent_safeIsHeic: "consistent (snd (safeIsHeic env f s)) = consistent s"
  by (rule consistent_fields) (simp_all add: safeIsHeic_fields)

lemma consistent_createObjectURL:
  "consistent s \<Longrightarrow> consistent (snd (createObjectURL b s))"
  by (auto simp add: consistent_iff createObjectURL_fields less_Suc_eq)

lemma consistent_revokeObjectURL:
  "consistent s \<Longrightarrow> u < next_url s \<Longrightarrow> u \<notin> set (objectUrls s) \<Longrightarrow>
   consistent (revokeObjectURL u s)"
  by (auto simp add: consistent_iff revokeObjectURL_fields)

lemma revoke_fields:
  "outputEl (revoke u s) = outputEl s"
  "objectUrls (revoke u s) = removeAll u (objectUrls s)"
  "url_store (revoke u s) = filter (\<lambda>kv. fst kv \<noteq> u) (url_store s)"
  "revoked (revoke u s) = revoked s @ [u]"
  "next_url (revoke u s) = next_url s"
  "timers (revoke u s) = timers s"
  by (simp_all add: revoke_def Let_def revokeObjectURL_fields)

lemma consistent_revoke:
  "consistent s \<Longrightarrow> u < next_url s \<Longrightarrow> consistent (revoke u s)"
  by (auto simp add: consistent_iff revoke_fields)

lemma fold_revoke_fields:
  "outputEl (fold revokeObjectURL us s) = outputEl s"
  "objectUrls (fold revokeObjectURL us s) = objectUrls s"
  "url_store (fold revokeObjectURL us s) = filter (\<lambda>kv. fst kv \<notin> set us) (url_store s)"
  "revoked (fold revokeObjectURL us s) = revoked s @ us"
  "next_url (fold revokeObjectURL us s) = next_url s"
  "timers (fold revokeObjectURL us s) = timers s"
  by (induction us arbitrary: s; simp add: revokeObjectURL_fields conj_commute)+

lemma revokeAll_fields:
  "outputEl (revokeAll s) = outputEl s"
  "objectUrls (revokeAll s) = []"
  "url_store (revokeAll s) = filter (\<lambda>kv. fst kv \<notin> set (objectUrls s)) (url_store s)"
  "revoked (revokeAll s) = revoked s @ objectUrls s"
  "next_url (revokeAll s) = next_url s"
  "timers (revokeAll s) = timers s"
  by (simp_all add: revokeAll_def Let_def fold_revoke_fields)

lemma consistent_revokeAll: "consistent s \<Longrightarrow> consistent (revokeAll s)"
  by (auto simp add: consistent_iff revokeAll_fields)

lemma consistent_clear: "consistent s \<Longrightarrow> consistent (s\<lparr>outputEl := []\<rparr>)"
  by (simp add: consistent_def links_simps)

lemma consistent_addDownloadLink:
  "consistent s \<Longrightarrow> consistent (addDownloadLink n b d s)"
  by (auto simp add: consistent_iff addDownloadLink_fields register_set links_append links_simps
      less_Suc_eq)

lemma filter_fresh: "\<forall>kv \<in> set xs. fst kv < (n::nat) \<Longrightarrow> filter (\<lambda>kv. fst kv \<noteq> n) xs = xs"
  by (induction xs) auto

lemma consistent_thumb:
  assumes "consistent s"
  shows "consistent (snd (createThumbnailFromBlob env b m s))"
proof -
  have "filter (\<lambda>kv. fst kv \<noteq> next_url s) (url_store s) = url_store s"
    using assms by (intro filter_fresh) (simp add: consistent_iff)
  then show ?thesis
    using assms by (auto simp add: consistent_iff thumb_fields less_Suc_eq)
qed

lemma consistent_heic:
  assumes "consistent s"
  shows "consistent (snd (convertHeicFileToJpeg env f s))"
  unfolding heic_unfold
  using assms
  by (auto simp add: consistent_appendMessage consistent_thumb consistent_addDownloadLink
      split: sum.split)

lemma consistent_image:
  assumes "consistent s"
  shows "consistent (snd (convertImageFileToJpeg env f s))"
proof -
  let ?s1 = "appendMessage (image_line f) s"
  let ?s2 = "snd (createObjectURL (bytes f) ?s1)"
  have 2: "consistent ?s2"
    using assms by (simp add: consistent_appendMessage consistent_createObjectURL)
  have "\<forall>u \<in> set (objectUrls s). u < next_url s"
    using assms by (fastforce simp add: consistent_iff)
  then have "next_url s \<notin> set (objectUrls ?s2)"
    by (auto simp add: createObjectURL_fields appendMessage_fields)
  then have 3: "consistent (revokeObjectURL (next_url s) ?s2)"
    using 2 by (intro consistent_revokeObjectURL)
      (simp_all add: createObjectURL_fields appendMessage_fields)
  show ?thesis
    unfolding image_unfold
    using 2 3
    by (auto simp add: consistent_canvas consistent_addDownloadLink split: sum.split option.split)
qed

lemma consistent_route: "consistent s \<Longrightarrow> consistent (snd (route env f s))"
  unfolding route_unfold
  by (simp add: consistent_heic consistent_image consistent_safeIsHeic)

lemma consistent_processFile: "consistent s \<Longrightarrow> consistent (processFile env f s)"
  unfolding processFile_unfold
  by (simp add: consistent_route consistent_appendMessage consistent_console split: sum.split)

lemma consistent_fold: "consistent s \<Longrightarrow> consistent (fold (processFile env) fs s)"
  by (induction fs arbitrary: s) (simp_all add: consistent_processFile)

lemma consistent_processFiles: "consistent s \<Longrightarrow> consistent (processFiles env files s)"
  by (simp add: processFiles_def Let_def consistent_setStatus consistent_fold consistent_clear
      consistent_revokeAll)

lemma consistent_step: "consistent s \<Longrightarrow> consistent (step env ev s)"
proof (cases ev)
  case (Batch files)
  assume "consistent s"
  then show ?thesis by (simp add: Batch consistent_processFiles)
next
  case (Click u)
  assume "consistent s"
  then show ?thesis by (auto simp add: Click consistent_iff has_link_iff)
next
  case Timeout
  assume c: "consistent s"
  show ?thesis
  proof (cases "timers s")
    case Nil
    then show ?thesis using c by (simp add: Timeout)
  next
    case (Cons u ts)
    have "consistent (s\<lparr>timers := ts\<rparr>)" using c Cons by (simp add: consistent_iff)
    moreover have "u < next_url (s\<lparr>timers := ts\<rparr>)" using c Cons by (simp add: consistent_iff)
    ultimately show ?thesis using Cons by (simp add: Timeout consistent_revoke)
  qed
next
  case Unload
  assume "consistent s"
  then show ?thesis by (simp add: Unload consistent_revokeAll)
qed

lemma consistent_run: "consistent s \<Longrightarrow> consistent (run env evs s)"
  unfolding run_def by (induction evs arbitrary: s) (simp_all add: consistent_step)

lemma heic_revoked_grows:
  "set (revoked s) \<subseteq> set (revoked (snd (convertHeicFileToJpeg env f s)))"
  unfolding heic_unfold
  by (auto simp add: thumb_fields appendMessage_fields addDownloadLink_fields split: sum.split)

lemma image_revoked_grows:
  "set (revoked s) \<subseteq> set (revoked (snd (convertImageFileToJpeg env f s)))"
  unfolding image_unfold
  by (auto simp add: createObjectURL_fields revokeObjectURL_fields appendMessage_fields
      addDownloadLink_fields split: sum.split option.split)

lemma route_revoked_grows: "set (revoked s) \<subseteq> set (revoked (snd (route env f s)))"
  unfolding route_unfold
  using heic_revoked_grows [of "snd (safeIsHeic env f s)" env f]
    image_revoked_grows [of "snd (safeIsHeic env f s)" env f]
  by (simp add: safeIsHeic_fields)

lemma processFile_revoked_grows: "set (revoked s) \<subseteq> set (revoked (processFile env f s))"
  unfolding processFile_unfold
  using route_revoked_grows [of s env f]
  by (simp add: appendMessage_fields split: sum.split)

lemma fold_revoked_grows: "set (revoked s) \<subseteq> set (revoked (fold (processFile env) fs s))"
proof (induction fs arbitrary: s)
  case Nil
  show ?case by simp
next
  case (Cons f fs)
  show ?case using Cons.IH [of "processFile env f s"] processFile_revoked_grows [of s env f]
    by auto
qed

lemma processFiles_revoked_grows:
  "set (revoked s) \<subseteq> set (revoked (processFiles env files s))"
proof (cases "filter supported files = []")
  case True
  then show ?thesis by (auto simp add: processFiles_def setStatus_fields)
next
  case False
  define s3 where "s3 = (revokeAll (setStatus (''Processing '' @
      show_nat (length (filter supported files)) @ '' file(s)...'') s))\<lparr>outputEl := []\<rparr>"
  have "revoked s3 = revoked s @ objectUrls s"
    by (simp add: s3_def revokeAll_fields setStatus_fields)
  then show ?thesis
    using False fold_revoked_grows [of s3 env "filter supported files"]
    by (simp add: processFiles_unfold setStatus_fields s3_def)
qed

lemma processFiles_revokes_tracked:
  assumes "filter supported files \<noteq> []"
  shows "set (objectUrls s) \<subseteq> set (revoked (processFiles env files s))"
proof -
  define s3 where "s3 = (revokeAll (setStatus (''Processing '' @
      show_nat (length (filter supported files)) @ '' file(s)...'') s))\<lparr>outputEl := []\<rparr>"
  have "revoked s3 = revoked s @ objectUrls s"
    by (simp add: s3_def revokeAll_fields setStatus_fields)
  then show ?thesis
    using assms fold_revoked_grows [of s3 env "filter supported files"]
    by (simp add: processFiles_unfold setStatus_fields s3_def)
qed

lemma step_revoked_grows: "set (revoked s) \<subseteq> set (revoked (step env ev s))"
proof (cases ev)
  case (Batch files)
  then show ?thesis using processFiles_revoked_grows by simp
next
  case (Click u)
  then show ?thesis by simp
next
  case Timeout
  then show ?thesis by (auto simp add: revoke_fields split: list.split)
next
  case Unload
  then show ?thesis by (simp add: revokeAll_fields)
qed

text \<open>
  Claim C2, amended. In every state the page can reach from its start: no tracked handle has
  been revoked, every tracked handle is in the URL store, and no revoked handle is in the
  store; a revocation is never undone by a later event. Each trigger revokes the handles it
  covers: clearing the output before a new batch and \<open>beforeunload\<close> revoke every tracked
  handle (and \<open>beforeunload\<close> leaves the set empty), a click on a link sets a delayed
  callback for its handle, and that callback revokes the handle and removes it from the set.
  So a handle is revoked by whichever trigger comes first, and a trigger that comes later
  may revoke it again.
\<close>

theorem handles_and_triggers:
  assumes "s = run env evs init"
  shows "set (objectUrls s) \<inter> set (revoked s) = {} \<and>
    set (objectUrls s) \<subseteq> fst ` set (url_store s) \<and>
    set (revoked s) \<inter> fst ` set (url_store s) = {} \<and>
    set (revoked s) \<subseteq> set (revoked (step env ev s)) \<and>
    (filter supported files \<noteq> [] \<longrightarrow>
       set (objectUrls s) \<subseteq> set (revoked (step env (Batch files) s))) \<and>
    (has_link u s \<longrightarrow> u \<in> set (timers (step env (Click u) s))) \<and>
    (timers s = u # ts \<longrightarrow>
       u \<in> set (revoked (step env Timeout s)) \<and> u \<notin> set (objectUrls (step env Timeout s))) \<and>
    objectUrls (step env Unload s) = [] \<and>
    set (objectUrls s) \<subseteq> set (revoked (step env Unload s))"
proof -
  have c: "consistent s" using assms consistent_run [OF consistent_init] by simp
  have 1: "set (objectUrls s) \<inter> set (revoked s) = {}"
    using c by (auto simp add: consistent_iff)
  have 2: "set (objectUrls s) \<subseteq> fst ` set (url_store s)"
    using c by (auto simp add: consistent_iff)
  have 3: "set (revoked s) \<inter> fst ` set (url_store s) = {}"
    using c by (auto simp add: consistent_iff)
  have 4: "set (revoked s) \<subseteq> set (revoked (step env ev s))"
    by (rule step_revoked_grows)
  have 5: "filter supported files \<noteq> [] \<longrightarrow>
       set (objectUrls s) \<subseteq> set (revoked (step env (Batch files) s))"
    using processFiles_revokes_tracked by simp
  have 6: "has_link u s \<longrightarrow> u \<in> set (timers (step env (Click u) s))"
    by simp
  have 7: "timers s = u # ts \<longrightarrow>
       u \<in> set (revoked (step env Timeout s)) \<and> u \<notin> set (objectUrls (step env Timeout s))"
    by (simp add: revoke_fields)
  have 8: "objectUrls (step env Unload s) = []"
    by (simp add: revokeAll_fields)
  have 9: "set (objectUrls s) \<subseteq> set (revoked (step env Unload s))"
    by (simp add: revokeAll_fields)
  show ?thesis using 1 2 3 4 5 6 7 8 9 by blast
qed

theorem handles_and_triggers_witness:
  "timers (run sample_platform [Batch [logo_png], Click 1] init) = [1] \<and>
   objectUrls (run sample_platform [Batch [logo_png], Click 1] init) = [1] \<and>
   set (objectUrls (run sample_platform [Batch [logo_png], Click 1] init)) \<inter>
     set (revoked (run sample_platform [Batch [logo_png], Click 1] init)) = {} \<and>
   1 \<in> set (revoked (step sample_platform Timeout
     (run sample_platform [Batch [logo_png], Click 1] init))) \<and>
   1 \<notin> set (objectUrls (step sample_platform Timeout
     (run sample_platform [Batch [logo_png], Click 1] init))) \<and>
   set (objectUrls (run sample_platform [Batch [logo_png], Click 1] init)) \<subseteq>
     set (revoked (step sample_platform (Batch [logo_png])
       (run sample_platform [Batch [logo_png], Click 1] init)))"
proof -
  note t = handles_and_triggers [OF refl, of sample_platform "[Batch [logo_png], Click 1]"
      Timeout "[logo_png]" 1 "[]"]
  have a: "timers (run sample_platform [Batch [logo_png], Click 1] init) = [1]"
    by code_simp
  have b: "objectUrls (run sample_platform [Batch [logo_png], Click 1] init) = [1]"
    by code_simp
  have c: "filter supported [logo_png] \<noteq> []"
    by code_simp
  show ?thesis using t a b c by blast
qed

text \<open>
  Claim C2 as stated fails. After one successful conversion the handle 1 is tracked and has
  a link. Two clicks on that link set two callbacks, and both revoke it; a click followed by
  a new batch revokes it when the output is cleared and again when the callback fires. After
  a click and its callback, the link of the revoked handle is still in the output, and a
  further click on it is taken (it sets a third callback): the revoked handle is
  dereferenced.
\<close>

theorem revoked_twice_counterexample:
  "objectUrls (run sample_platform [Batch [logo_png]] init) = [1] \<and>
   has_link 1 (run sample_platform [Batch [logo_png]] init) \<and>
   count_list (revoked (run sample_platform
      [Batch [logo_png], Click 1, Click 1, Timeout, Timeout] init)) 1 = 2 \<and>
   count_list (revoked (run sample_platform
      [Batch [logo_png], Click 1, Batch [logo_png], Timeout] init)) 1 = 2 \<and>
   has_link 1 (run sample_platform [Batch [logo_png], Click 1, Timeout] init) \<and>
   map_of (url_store (run sample_platform [Batch [logo_png], Click 1, Timeout] init)) 1 = None \<and>
   timers (run sample_platform [Batch [logo_png], Click 1, Timeout, Click 1] init) = [1]"
  by code_simp

subsection \<open>The transient URL of the standard path\<close>

text \<open>
  Claim C1 on the code. When the image loader rejects (here for the file \<open>broken.png\<close>),
  \<open>convertImageFileToJpeg\<close> throws before line 155: the URL it created for the file stays in
  the store and \<open>revokeObjectURL\<close> is never called for it, not even by \<open>beforeunload\<close>,
  because the URL is not tracked. When the loader succeeds (\<open>logo.png\<close>) the URL is revoked.
\<close>

theorem standard_path_leaks_when_decoding_fails:
  "fst (convertImageFileToJpeg sample_platform broken_png init) =
     Inl (Error ''Error'' ''Failed to load image'') \<and>
   url_store (snd (convertImageFileToJpeg sample_platform broken_png init)) = [(0, 0)] \<and>
   revoked (snd (convertImageFileToJpeg sample_platform broken_png init)) = [] \<and>
   url_store (run sample_platform [Batch [broken_png], Unload] init) = [(0, 0)] \<and>
   revoked (run sample_platform [Batch [broken_png], Unload] init) = [] \<and>
   revoked (snd (convertImageFileToJpeg sample_platform logo_png init)) = [0]"
  by code_simp

end
